theory Spec2Isabelle
  imports Main "HOL-Library.AList" "HOL-Library.Sublist"
begin

section \<open>Data model\<close>

text \<open>
  The module \<^verbatim>\<open>functions.py\<close> is a set of cleaning steps over a pandas DataFrame.
  A cell of a frame is null (\<^verbatim>\<open>None\<close> or \<^verbatim>\<open>NaN\<close>; pandas treats both as missing),
  a Python string, or a number. Numbers are kept abstract (type \<open>'f\<close>): what
  \<^verbatim>\<open>float(...)\<close>, \<^verbatim>\<open>Series.mean\<close> and \<^verbatim>\<open>astype(int)\<close> compute on them is IEEE
  arithmetic of the library, taken as a parameter (\<open>float_ops\<close>).

  A frame is its row labels and its columns in order, each column a label and a
  series of cells. Column labels are strings and, as in the data model of the
  specification, distinct (\<open>wf_table\<close>); a frame with a repeated label is outside
  this model (\<open>clean_col_name\<close> can make one, from \<open>ST\<close> and \<open>state\<close>), and so is
  the dtype of a column. Strings are lists of 8-bit characters; case conversion is the
  ASCII one.
\<close>

datatype error = KeyError | IndexError | TypeError | AttributeError | ValueError

datatype 'f cell = Null | Text string | Num 'f

record 'f table =
  index :: "nat list"
  cols :: "(string \<times> 'f cell list) list"

definition wf_table :: "'f table \<Rightarrow> bool" where
  "wf_table t =
     (distinct (map fst (cols t)) \<and>
      list_all (\<lambda>c. length (snd c) = length (index t)) (cols t))"

record 'f float_ops =
  parse_float :: "string \<Rightarrow> 'f option option"
  mean_float :: "'f list \<Rightarrow> 'f option"
  to_int :: "'f cell \<Rightarrow> error + 'f cell"

text \<open>
  \<open>parse_float s\<close> is \<^verbatim>\<open>float(s)\<close>: \<open>None\<close> when it raises ValueError,
  \<open>Some None\<close> when the result is NaN, \<open>Some (Some v)\<close> otherwise.
  \<open>mean_float vs\<close> is the floating-point mean of a non-empty list of non-NaN values
  (\<open>None\<close> when that mean is NaN). \<open>to_int\<close> is the conversion of one cell by
  \<^verbatim>\<open>astype(int)\<close>.
\<close>

section \<open>Objects and statements\<close>

text \<open>
  DataFrames are mutable objects, and the functions copy their argument and then
  assign into the copy. The store is the list of the frames allocated so far; a
  reference is a position in it. A program takes the store and returns a value or
  the exception raised, and the store it leaves.
\<close>

type_synonym 'f store = "'f table list"

type_synonym ('f, 'a) prog = "'f store \<Rightarrow> (error + 'a) \<times> 'f store"

definition ret :: "'a \<Rightarrow> ('f, 'a) prog" where
  "ret a h = (Inr a, h)"

definition bind_prog :: "('f, 'a) prog \<Rightarrow> ('a \<Rightarrow> ('f, 'b) prog) \<Rightarrow> ('f, 'b) prog" where
  "bind_prog m k h = (case m h of (Inl e, h') \<Rightarrow> (Inl e, h') | (Inr a, h') \<Rightarrow> k a h')"

definition lift_result :: "error + 'a \<Rightarrow> ('f, 'a) prog" where
  "lift_result r h = (r, h)"

definition new_frame :: "'f table \<Rightarrow> ('f, nat) prog" where
  "new_frame t h = (Inr (length h), h @ [t])"

text \<open>\<^verbatim>\<open>df.copy()\<close>: a new object with the same labels and cells.\<close>

definition df_copy :: "nat \<Rightarrow> ('f, nat) prog" where
  "df_copy df h = new_frame (h ! df) h"

text \<open>\<^verbatim>\<open>df[column]\<close>: KeyError when no column has that label.\<close>

definition getitem :: "nat \<Rightarrow> string \<Rightarrow> ('f, 'f cell list) prog" where
  "getitem df column h =
     (case map_of (cols (h ! df)) column of
        None \<Rightarrow> (Inl KeyError, h)
      | Some s \<Rightarrow> (Inr s, h))"

text \<open>
  \<^verbatim>\<open>df[column] = s\<close> and \<^verbatim>\<open>df.loc[:, column] = s\<close>, for a series \<open>s\<close> over the
  frame's own rows: the column is replaced in place, or appended when the label is new.
  The object \<open>df\<close> itself is changed.
\<close>

definition setitem :: "nat \<Rightarrow> string \<Rightarrow> 'f cell list \<Rightarrow> ('f, unit) prog" where
  "setitem df column s h =
     (Inr (), h[df := (h ! df)\<lparr>cols := AList.update column s (cols (h ! df))\<rparr>])"

text \<open>\<^verbatim>\<open>df[labels]\<close> and \<^verbatim>\<open>df[labels] = frame\<close> for a list of labels.\<close>

fun lookup_all :: "(string \<times> 'a) list \<Rightarrow> string list \<Rightarrow> error + 'a list" where
  "lookup_all al [] = Inr []"
| "lookup_all al (c # cs) =
     (case map_of al c of
        None \<Rightarrow> Inl KeyError
      | Some s \<Rightarrow> (case lookup_all al cs of Inl e \<Rightarrow> Inl e | Inr ss \<Rightarrow> Inr (s # ss)))"

definition getitems :: "nat \<Rightarrow> string list \<Rightarrow> ('f, 'f cell list list) prog" where
  "getitems df labels h = (lookup_all (cols (h ! df)) labels, h)"

definition setitems :: "nat \<Rightarrow> string list \<Rightarrow> 'f cell list list \<Rightarrow> ('f, unit) prog" where
  "setitems df labels ss h =
     (Inr (), h[df := (h ! df)\<lparr>cols := AList.updates labels ss (cols (h ! df))\<rparr>])"

text \<open>\<^verbatim>\<open>df.columns\<close> and \<^verbatim>\<open>df.columns = labels\<close> (ValueError on a length mismatch).\<close>

definition get_columns :: "nat \<Rightarrow> ('f, string list) prog" where
  "get_columns df h = (Inr (map fst (cols (h ! df))), h)"

definition set_columns :: "nat \<Rightarrow> string list \<Rightarrow> ('f, unit) prog" where
  "set_columns df labels h =
     (if length labels = length (cols (h ! df))
      then (Inr (), h[df := (h ! df)\<lparr>cols := zip labels (map snd (cols (h ! df)))\<rparr>])
      else (Inl ValueError, h))"

text \<open>\<^verbatim>\<open>df.rename(columns=mapping)\<close>: a new frame, labels found in the mapping replaced.\<close>

definition rename_label :: "(string \<times> string) list \<Rightarrow> string \<Rightarrow> string" where
  "rename_label mapping l = (case map_of mapping l of None \<Rightarrow> l | Some l' \<Rightarrow> l')"

definition rename_columns :: "nat \<Rightarrow> (string \<times> string) list \<Rightarrow> ('f, nat) prog" where
  "rename_columns df mapping h =
     new_frame ((h ! df)\<lparr>cols := map (\<lambda>c. (rename_label mapping (fst c), snd c)) (cols (h ! df))\<rparr>) h"

text \<open>
  \<^verbatim>\<open>df.dropna(axis=0, how='all')\<close>: a new frame without the rows whose cells are all
  null; the rows kept stay in order, with their labels.
\<close>

definition keep_mask :: "'f table \<Rightarrow> bool list" where
  "keep_mask t = map (\<lambda>i. list_ex (\<lambda>c. snd c ! i \<noteq> Null) (cols t)) [0..<length (index t)]"

definition select_rows :: "bool list \<Rightarrow> 'a list \<Rightarrow> 'a list" where
  "select_rows keep xs = map fst (filter snd (zip xs keep))"

definition dropna_all :: "'f table \<Rightarrow> 'f table" where
  "dropna_all t =
     \<lparr>index = select_rows (keep_mask t) (index t),
      cols = map (\<lambda>c. (fst c, select_rows (keep_mask t) (snd c))) (cols t)\<rparr>"

definition dropna :: "nat \<Rightarrow> ('f, nat) prog" where
  "dropna df h = new_frame (dropna_all (h ! df)) h"

section \<open>Strings\<close>

text \<open>\<^verbatim>\<open>upper()\<close> and \<^verbatim>\<open>lower()\<close> on a character: the ASCII letters change case.\<close>

definition upper_char :: "char \<Rightarrow> char" where
  "upper_char c =
     (case map_of (zip ''abcdefghijklmnopqrstuvwxyz'' ''ABCDEFGHIJKLMNOPQRSTUVWXYZ'') c of
        None \<Rightarrow> c
      | Some u \<Rightarrow> u)"

definition lower_char :: "char \<Rightarrow> char" where
  "lower_char c =
     (case map_of (zip ''ABCDEFGHIJKLMNOPQRSTUVWXYZ'' ''abcdefghijklmnopqrstuvwxyz'') c of
        None \<Rightarrow> c
      | Some l \<Rightarrow> l)"

definition str_upper :: "string \<Rightarrow> string" where
  "str_upper s = map upper_char s"

definition str_lower :: "string \<Rightarrow> string" where
  "str_lower s = map lower_char s"

text \<open>\<^verbatim>\<open>s.replace(old, new)\<close> for a one-character \<open>old\<close>.\<close>

definition str_replace :: "char \<Rightarrow> string \<Rightarrow> string \<Rightarrow> string" where
  "str_replace old new s = concat (map (\<lambda>c. if c = old then new else [c]) s)"

text \<open>\<^verbatim>\<open>s.split(sep)\<close> for a one-character \<open>sep\<close>: always at least one segment.\<close>

fun str_split :: "char \<Rightarrow> string \<Rightarrow> string list" where
  "str_split sep [] = [[]]"
| "str_split sep (c # cs) =
     (if c = sep then [] # str_split sep cs
      else (case str_split sep cs of [] \<Rightarrow> [[c]] | p # ps \<Rightarrow> (c # p) # ps))"

section \<open>Series operations\<close>

text \<open>
  \<^verbatim>\<open>Series.apply(f)\<close> calls \<open>f\<close> on the cells in order; the first exception ends it.
  \<^verbatim>\<open>DataFrame.apply(f)\<close> does the same over the columns.
\<close>

fun apply_each :: "('a \<Rightarrow> error + 'b) \<Rightarrow> 'a list \<Rightarrow> error + 'b list" where
  "apply_each f [] = Inr []"
| "apply_each f (x # xs) =
     (case f x of
        Inl e \<Rightarrow> Inl e
      | Inr y \<Rightarrow> (case apply_each f xs of Inl e \<Rightarrow> Inl e | Inr ys \<Rightarrow> Inr (y # ys)))"

text \<open>\<^verbatim>\<open>x[0]\<close> on a cell: only a non-empty string has a first character.\<close>

fun item0 :: "'f cell \<Rightarrow> error + string" where
  "item0 (Text []) = Inl IndexError"
| "item0 (Text (c # cs)) = Inr [c]"
| "item0 (Num v) = Inl TypeError"
| "item0 Null = Inl TypeError"

text \<open>
  The lambda of \<open>clean_gender\<close>:
  \<^verbatim>\<open>x[0].upper() if pd.notnull(x) and x[0].upper() in ['M','F'] else "D"\<close>.
\<close>

definition gender_lambda :: "'f cell \<Rightarrow> error + 'f cell" where
  "gender_lambda x =
     (if x \<noteq> Null
      then (case item0 x of
              Inl e \<Rightarrow> Inl e
            | Inr c \<Rightarrow> if str_upper c \<in> set [''M'', ''F'']
                       then Inr (Text (str_upper c)) else Inr (Text ''D''))
      else Inr (Text ''D''))"

text \<open>
  The lambda of \<open>clean_clv\<close>: \<^verbatim>\<open>x.replace('%','') if pd.notnull(x) else x\<close>.
  A number has no \<^verbatim>\<open>replace\<close>.
\<close>

definition clv_lambda :: "'f cell \<Rightarrow> error + 'f cell" where
  "clv_lambda x =
     (if x \<noteq> Null
      then (case x of Text s \<Rightarrow> Inr (Text (str_replace CHR ''%'' [] s)) | _ \<Rightarrow> Inl AttributeError)
      else Inr x)"

text \<open>\<^verbatim>\<open>Series.replace(mapping)\<close>: a cell equal to a key becomes the key's value.\<close>

definition replace_cell :: "(string \<times> string) list \<Rightarrow> 'f cell \<Rightarrow> 'f cell" where
  "replace_cell mapping x =
     (case x of
        Text s \<Rightarrow> (case map_of mapping s of None \<Rightarrow> x | Some s' \<Rightarrow> Text s')
      | _ \<Rightarrow> x)"

definition series_replace :: "(string \<times> string) list \<Rightarrow> 'f cell list \<Rightarrow> 'f cell list" where
  "series_replace mapping s = map (replace_cell mapping) s"

text \<open>
  \<^verbatim>\<open>Series.str\<close> raises AttributeError on a series that holds numbers and no string.
  \<^verbatim>\<open>.str.split(pat=sep)\<close> gives the list of segments of a string and NaN for any other
  cell; \<^verbatim>\<open>.str[i]\<close> on the result gives segment \<open>i\<close>, or NaN when there is none.

  pandas admits the accessor by the column's dtype, which a frame of this model does
  not record. A series with a string in it is a series of objects and is admitted, and
  one with numbers and no string is refused, whatever its dtype. A series of nulls only
  (or of no rows) is admitted when it is stored as objects and refused when it is
  stored as floats; the model takes it as stored as objects, and no theorem below
  about the Complaints Splitter is about such a column.
\<close>

fun is_text :: "'f cell \<Rightarrow> bool" where
  "is_text (Text s) = True"
| "is_text _ = False"

fun is_num :: "'f cell \<Rightarrow> bool" where
  "is_num (Num v) = True"
| "is_num _ = False"

definition str_accessor :: "'f cell list \<Rightarrow> error + 'f cell list" where
  "str_accessor s =
     (if list_ex is_num s \<and> \<not> list_ex is_text s then Inl AttributeError else Inr s)"

definition split_cell :: "char \<Rightarrow> 'f cell \<Rightarrow> string list option" where
  "split_cell sep x = (case x of Text s \<Rightarrow> Some (str_split sep s) | _ \<Rightarrow> None)"

definition str_split_series :: "char \<Rightarrow> 'f cell list \<Rightarrow> error + string list option list" where
  "str_split_series sep s =
     (case str_accessor s of Inl e \<Rightarrow> Inl e | Inr s' \<Rightarrow> Inr (map (split_cell sep) s'))"

definition segment :: "nat \<Rightarrow> string list option \<Rightarrow> 'f cell" where
  "segment i p =
     (case p of None \<Rightarrow> Null | Some ps \<Rightarrow> if i < length ps then Text (ps ! i) else Null)"

definition str_get_series :: "nat \<Rightarrow> string list option list \<Rightarrow> 'f cell list" where
  "str_get_series i ps = map (segment i) ps"

text \<open>\<^verbatim>\<open>Series.astype(float)\<close>, \<^verbatim>\<open>Series.mean()\<close> (NaN when no cell is non-null) and
  \<^verbatim>\<open>Series.fillna(m)\<close> (filling with NaN changes nothing).\<close>

definition float_cell :: "'f float_ops \<Rightarrow> 'f cell \<Rightarrow> error + 'f cell" where
  "float_cell ops x =
     (case x of
        Null \<Rightarrow> Inr Null
      | Num v \<Rightarrow> Inr (Num v)
      | Text s \<Rightarrow> (case parse_float ops s of
                    None \<Rightarrow> Inl ValueError
                  | Some None \<Rightarrow> Inr Null
                  | Some (Some v) \<Rightarrow> Inr (Num v)))"

definition astype_float :: "'f float_ops \<Rightarrow> 'f cell list \<Rightarrow> error + 'f cell list" where
  "astype_float ops s = apply_each (float_cell ops) s"

fun numbers :: "'f cell list \<Rightarrow> 'f list" where
  "numbers [] = []"
| "numbers (Num v # xs) = v # numbers xs"
| "numbers (x # xs) = numbers xs"

definition series_mean :: "'f float_ops \<Rightarrow> 'f cell list \<Rightarrow> 'f option" where
  "series_mean ops s = (if numbers s = [] then None else mean_float ops (numbers s))"

definition fill_cell :: "'f option \<Rightarrow> 'f cell \<Rightarrow> 'f cell" where
  "fill_cell m x = (if x = Null then (case m of None \<Rightarrow> Null | Some v \<Rightarrow> Num v) else x)"

definition fillna :: "'f option \<Rightarrow> 'f cell list \<Rightarrow> 'f cell list" where
  "fillna m s = map (fill_cell m) s"

definition astype_int :: "'f float_ops \<Rightarrow> 'f cell list \<Rightarrow> error + 'f cell list" where
  "astype_int ops s = apply_each (to_int ops) s"

section \<open>The cleaning steps\<close>

definition clean_col_name :: "nat \<Rightarrow> ('f, nat) prog" where
  "clean_col_name df =
     bind_prog (df_copy df) (\<lambda>df2.
     bind_prog (get_columns df2) (\<lambda>names.
     bind_prog (set_columns df2 (map str_lower names)) (\<lambda>_.
     bind_prog (get_columns df2) (\<lambda>names.
     bind_prog (set_columns df2 (map (str_replace CHR '' '' ''_'') names)) (\<lambda>_.
     bind_prog (rename_columns df2 [(''st'', ''state'')]) (\<lambda>df2.
     ret df2))))))"

definition clean_gender :: "nat \<Rightarrow> string \<Rightarrow> ('f, nat) prog" where
  "clean_gender df column =
     bind_prog (df_copy df) (\<lambda>df2.
     bind_prog (getitem df2 column) (\<lambda>s.
     bind_prog (lift_result (apply_each gender_lambda s)) (\<lambda>s'.
     bind_prog (setitem df2 column s') (\<lambda>_.
     ret df2))))"

definition state_dict :: "(string \<times> string) list" where
  "state_dict = [(''AZ'', ''Arizona''), (''Cali'', ''California''), (''WA'', ''Washington'')]"

definition clean_state :: "nat \<Rightarrow> string \<Rightarrow> ('f, nat) prog" where
  "clean_state df column =
     bind_prog (df_copy df) (\<lambda>df2.
     bind_prog (getitem df2 column) (\<lambda>s.
     bind_prog (setitem df2 column (series_replace state_dict s)) (\<lambda>_.
     ret df2)))"

definition clean_education :: "nat \<Rightarrow> string \<Rightarrow> ('f, nat) prog" where
  "clean_education df column =
     bind_prog (df_copy df) (\<lambda>df2.
     bind_prog (getitem df2 column) (\<lambda>s.
     bind_prog (setitem df2 column (series_replace [(''Bachelors'', ''Bachelor'')] s)) (\<lambda>_.
     ret df2)))"

definition clean_clv :: "nat \<Rightarrow> string \<Rightarrow> ('f, nat) prog" where
  "clean_clv df column =
     bind_prog (df_copy df) (\<lambda>df2.
     bind_prog (getitem df2 column) (\<lambda>s.
     bind_prog (lift_result (apply_each clv_lambda s)) (\<lambda>s'.
     bind_prog (setitem df2 column s') (\<lambda>_.
     ret df2))))"

definition car_classes_dict :: "(string \<times> string) list" where
  "car_classes_dict =
     [(''Sports Car'', ''Luxury''), (''Luxury SUV'', ''Luxury''), (''Luxury Car'', ''Luxury'')]"

definition clean_car_class :: "nat \<Rightarrow> string \<Rightarrow> ('f, nat) prog" where
  "clean_car_class df column =
     bind_prog (df_copy df) (\<lambda>df2.
     bind_prog (getitem df2 column) (\<lambda>s.
     bind_prog (setitem df2 column (series_replace car_classes_dict s)) (\<lambda>_.
     ret df2)))"

definition split_keep_middle :: "nat \<Rightarrow> string \<Rightarrow> ('f, nat) prog" where
  "split_keep_middle df column =
     bind_prog (df_copy df) (\<lambda>df2.
     bind_prog (getitem df2 column) (\<lambda>s.
     bind_prog (lift_result (str_split_series CHR ''/'' s)) (\<lambda>parts.
     bind_prog (setitem df2 column (str_get_series 1 parts)) (\<lambda>_.
     ret df2))))"

definition drop_null_rows :: "nat \<Rightarrow> ('f, nat) prog" where
  "drop_null_rows df =
     bind_prog (df_copy df) (\<lambda>df2.
     bind_prog (dropna df2) (\<lambda>df2.
     ret df2))"

definition fill_with_mean :: "'f float_ops \<Rightarrow> nat \<Rightarrow> string \<Rightarrow> ('f, nat) prog" where
  "fill_with_mean ops df column =
     bind_prog (df_copy df) (\<lambda>df2.
     bind_prog (getitem df2 column) (\<lambda>s.
     bind_prog (lift_result (astype_float ops s)) (\<lambda>s'.
     bind_prog (setitem df2 column s') (\<lambda>_.
     bind_prog (getitem df2 column) (\<lambda>s1.
     bind_prog (getitem df2 column) (\<lambda>s2.
     bind_prog (setitem df2 column (fillna (series_mean ops s2) s1)) (\<lambda>_.
     ret df2)))))))"

definition num_var :: "string list" where
  "num_var = [''customer_lifetime_value'', ''income'', ''monthly_premium_auto'',
              ''number_of_open_complaints'', ''total_claim_amount'']"

definition num_to_int :: "'f float_ops \<Rightarrow> nat \<Rightarrow> ('f, nat) prog" where
  "num_to_int ops df =
     bind_prog (df_copy df) (\<lambda>df2.
     bind_prog (getitems df2 num_var) (\<lambda>ss.
     bind_prog (lift_result (apply_each (astype_int ops) ss)) (\<lambda>ss'.
     bind_prog (setitems df2 num_var ss') (\<lambda>_.
     ret df2))))"

text \<open>
  \<open>clean_dataframe\<close> takes a second argument \<open>column\<close> and never reads it; the steps
  are called with their default columns.
\<close>

definition clean_dataframe :: "'f float_ops \<Rightarrow> nat \<Rightarrow> 'c \<Rightarrow> ('f, nat) prog" where
  "clean_dataframe ops df column =
     bind_prog (df_copy df) (\<lambda>df2.
     bind_prog (clean_col_name df) (\<lambda>df2.
     bind_prog (drop_null_rows df2) (\<lambda>df2.
     bind_prog (clean_gender df2 ''gender'') (\<lambda>df2.
     bind_prog (clean_state df2 ''state'') (\<lambda>df2.
     bind_prog (clean_education df2 ''education'') (\<lambda>df2.
     bind_prog (clean_clv df2 ''customer_lifetime_value'') (\<lambda>df2.
     bind_prog (split_keep_middle df2 ''number_of_open_complaints'') (\<lambda>df2.
     bind_prog (fill_with_mean ops df2 ''customer_lifetime_value'') (\<lambda>df2.
     ret df2)))))))))"

text \<open>
  Calling a step on a frame \<open>t\<close>: the store holds \<open>t\<close> alone, the step gets the
  reference to it, and the outcome is the exception or the frame returned.
\<close>

definition call :: "(nat \<Rightarrow> ('f, nat) prog) \<Rightarrow> 'f table \<Rightarrow> error + 'f table" where
  "call f t = (case f 0 [t] of (Inl e, h) \<Rightarrow> Inl e | (Inr a, h) \<Rightarrow> Inr (h ! a))"

text \<open>Sequencing of outcomes: the first exception ends the sequence.\<close>

definition and_then :: "error + 'a \<Rightarrow> ('a \<Rightarrow> error + 'b) \<Rightarrow> error + 'b" where
  "and_then r k = (case r of Inl e \<Rightarrow> Inl e | Inr a \<Rightarrow> k a)"

section \<open>Properties of steps\<close>

text \<open>
  A step is pure when, run on any store with a valid reference, it leaves every object
  that existed before the call as it was (the store only grows), returns a reference
  to an object allocated during the call, and raises or returns what calling it on the
  argument's frame alone does: the outcome depends on the argument's value only.
\<close>

definition pure_step :: "(nat \<Rightarrow> ('f, nat) prog) \<Rightarrow> bool" where
  "pure_step f =
     (\<forall>h df. df < length h \<longrightarrow>
        (case f df h of (r, h') \<Rightarrow>
           prefix h h' \<and>
           (case r of
              Inl e \<Rightarrow> call f (h ! df) = Inl e
            | Inr a \<Rightarrow> length h \<le> a \<and> a < length h' \<and> call f (h ! df) = Inr (h' ! a))))"

text \<open>
  A step keeps the other columns when the frame it returns has the row labels and the
  column labels of its argument, in the same order, and the same cells in every column
  but the one named.
\<close>

definition keeps_other_columns :: "(nat \<Rightarrow> ('f, nat) prog) \<Rightarrow> string \<Rightarrow> bool" where
  "keeps_other_columns f column =
     (\<forall>t t'. wf_table t \<longrightarrow> call f t = Inr t' \<longrightarrow>
        index t' = index t \<and> map fst (cols t') = map fst (cols t) \<and>
        (\<forall>c. c \<noteq> column \<longrightarrow> map_of (cols t') c = map_of (cols t) c))"

text \<open>
  The value of the statements
  \<^verbatim>\<open>df2 = df.copy(); df2[column] = F(df2[column]); return df2\<close> on a frame.
\<close>

definition assign_col ::
  "('f cell list \<Rightarrow> error + 'f cell list) \<Rightarrow> string \<Rightarrow> 'f table \<Rightarrow> error + 'f table" where
  "assign_col F c t =
     (case map_of (cols t) c of
        None \<Rightarrow> Inl KeyError
      | Some s \<Rightarrow> (case F s of Inl e \<Rightarrow> Inl e | Inr s' \<Rightarrow> Inr (t\<lparr>cols := AList.update c s' (cols t)\<rparr>)))"

text \<open>
  The pipeline as the specification words it: the eight steps in its fixed order, each
  called on the frame the one before returned, each with its default column.
\<close>

definition pipeline_spec :: "'f float_ops \<Rightarrow> 'f table \<Rightarrow> error + 'f table" where
  "pipeline_spec ops t =
     and_then (call clean_col_name t) (\<lambda>t.
     and_then (call drop_null_rows t) (\<lambda>t.
     and_then (call (\<lambda>d. clean_gender d ''gender'') t) (\<lambda>t.
     and_then (call (\<lambda>d. clean_state d ''state'') t) (\<lambda>t.
     and_then (call (\<lambda>d. clean_education d ''education'') t) (\<lambda>t.
     and_then (call (\<lambda>d. clean_clv d ''customer_lifetime_value'') t) (\<lambda>t.
     and_then (call (\<lambda>d. split_keep_middle d ''number_of_open_complaints'') t) (\<lambda>t.
     call (\<lambda>d. fill_with_mean ops d ''customer_lifetime_value'') t)))))))"

text \<open>The labels \<open>clean_col_name\<close> leaves: lower case, \<open>_\<close> for a space, \<open>st\<close> renamed.\<close>

definition normalized_names :: "'f table \<Rightarrow> 'f table" where
  "normalized_names t =
     t\<lparr>cols := map (\<lambda>c. (rename_label [(''st'', ''state'')]
                            (str_replace CHR '' '' ''_'' (str_lower (fst c))), snd c)) (cols t)\<rparr>"

text \<open>The value of \<open>num_to_int\<close> on a frame.\<close>

definition assign_ints :: "'f float_ops \<Rightarrow> 'f table \<Rightarrow> error + 'f table" where
  "assign_ints ops t =
     (case lookup_all (cols t) num_var of
        Inl e \<Rightarrow> Inl e
      | Inr ss \<Rightarrow> (case apply_each (astype_int ops) ss of
                    Inl e \<Rightarrow> Inl e
                  | Inr ss' \<Rightarrow> Inr (t\<lparr>cols := AList.updates num_var ss' (cols t)\<rparr>)))"

text \<open>
  A step is idempotent when calling it on the frame it returned gives that frame again
  (and when it raises, there is no frame to call it on).
\<close>

definition idempotent_step :: "(nat \<Rightarrow> ('f, nat) prog) \<Rightarrow> bool" where
  "idempotent_step f = (\<forall>t. wf_table t \<longrightarrow> and_then (call f t) (call f) = call f t)"

text \<open>
  A step is the identity off a list of keys when, on every frame that has the column,
  it returns a frame whose column has the cells of the argument wherever the cell is
  not the text of a key (a null and a number are never one).
\<close>

definition identity_off_keys ::
  "(nat \<Rightarrow> ('f, nat) prog) \<Rightarrow> string \<Rightarrow> string list \<Rightarrow> bool" where
  "identity_off_keys f column keys =
     (\<forall>t xs. wf_table t \<longrightarrow> map_of (cols t) column = Some xs \<longrightarrow>
        (\<exists>t' ys. call f t = Inr t' \<and> map_of (cols t') column = Some ys \<and>
           length ys = length xs \<and>
           (\<forall>i<length xs. xs ! i \<notin> Text ` set keys \<longrightarrow> ys ! i = xs ! i)))"

text \<open>
  The Lifetime Value Cleaner as the specification words it: every \<open>%\<close> removed from a
  text, any other cell as it is.
\<close>

definition strip_percent :: "'f cell \<Rightarrow> 'f cell" where
  "strip_percent x = (case x of Text s \<Rightarrow> Text (filter (\<lambda>c. c \<noteq> CHR ''%'') s) | _ \<Rightarrow> x)"

text \<open>
  The Complaints Splitter as the specification words it: the second segment of a text
  split on \<open>/\<close>, null when there are fewer than two segments or the cell is no text.
\<close>

definition second_segment :: "'f cell \<Rightarrow> 'f cell" where
  "second_segment x =
     (case x of
        Text s \<Rightarrow> (case str_split CHR ''/'' s of a # b # rest \<Rightarrow> Text b | _ \<Rightarrow> Null)
      | _ \<Rightarrow> Null)"

text \<open>
  The number a cell converts to under \<^verbatim>\<open>astype(float)\<close>: none for a null, for a text
  that \<^verbatim>\<open>float\<close> rejects and for a text it reads as NaN. A cell is numerically parsable
  when it has one.
\<close>

definition float_value :: "'f float_ops \<Rightarrow> 'f cell \<Rightarrow> 'f option" where
  "float_value ops x =
     (case x of
        Null \<Rightarrow> None
      | Num v \<Rightarrow> Some v
      | Text s \<Rightarrow> (case parse_float ops s of Some (Some v) \<Rightarrow> Some v | _ \<Rightarrow> None))"

text \<open>
  The Mean Imputer as the specification words it, for a mean \<open>m\<close>: a cell with a
  number keeps it, as a float; any other cell gets the mean.
\<close>

definition imputed :: "'f float_ops \<Rightarrow> 'f \<Rightarrow> 'f cell \<Rightarrow> 'f cell" where
  "imputed ops m x = (case float_value ops x of Some v \<Rightarrow> Num v | None \<Rightarrow> Num m)"

text \<open>
  The two infinite doubles, as an instance of the library's arithmetic. \<^verbatim>\<open>float\<close>
  reads \<^verbatim>\<open>inf\<close> and \<^verbatim>\<open>-inf\<close> as them and \<^verbatim>\<open>nan\<close> as NaN; the mean of a list of
  equal infinities is that infinity, and the mean of a list holding both is NaN, as
  their sum is; neither converts to an integer. A text that denotes a finite number
  has no value in this type, and the instance is used on none.
\<close>

datatype inf_float = PlusInf | MinusInf

definition inf_ops :: "inf_float float_ops" where
  "inf_ops =
     \<lparr>parse_float = (\<lambda>s. if s = ''inf'' then Some (Some PlusInf)
                         else if s = ''-inf'' then Some (Some MinusInf)
                         else if s = ''nan'' then Some None
                         else None),
      mean_float = (\<lambda>vs. if PlusInf \<in> set vs \<and> MinusInf \<in> set vs then None
                         else (case vs of [] \<Rightarrow> None | v # _ \<Rightarrow> Some v)),
      to_int = (\<lambda>x. Inl ValueError)\<rparr>"

section \<open>Running the statements\<close>

lemmas prog_defs = bind_prog_def ret_def lift_result_def new_frame_def df_copy_def getitem_def
  setitem_def getitems_def setitems_def get_columns_def set_columns_def rename_columns_def dropna_def

lemma pure_stepD:
  assumes "pure_step f" and "df < length h" and "f df h = (r, h')"
  shows "prefix h h'"
    and "r = Inl e \<Longrightarrow> call f (h ! df) = Inl e"
    and "r = Inr a \<Longrightarrow> length h \<le> a \<and> a < length h' \<and> call f (h ! df) = Inr (h' ! a)"
proof -
  from assms have *: "prefix h h' \<and>
           (case r of
              Inl e \<Rightarrow> call f (h ! df) = Inl e
            | Inr a \<Rightarrow> length h \<le> a \<and> a < length h' \<and> call f (h ! df) = Inr (h' ! a))"
    unfolding pure_step_def by (metis (mono_tags, lifting) case_prod_conv)
  from * show "prefix h h'" by simp
  from * show "r = Inl e \<Longrightarrow> call f (h ! df) = Inl e" by simp
  from * show "r = Inr a \<Longrightarrow> length h \<le> a \<and> a < length h' \<and> call f (h ! df) = Inr (h' ! a)" by simp
qed



lemma call_cases:
  obtains (raised) e h' where "f 0 [t] = (Inl e, h')" and "call f t = Inl e"
  | (returned) a h' where "f 0 [t] = (Inr a, h')" and "call f t = Inr (h' ! a)"
proof (cases "f 0 [t]")
  case (Pair r h')
  show ?thesis
  proof (cases r)
    case (Inl e)
    with Pair show ?thesis by (intro raised [of e h']) (simp_all add: call_def)
  next
    case (Inr a)
    with Pair show ?thesis by (intro returned [of a h']) (simp_all add: call_def)
  qed
qed

lemma call_bind:
  assumes f: "pure_step f" and g: "pure_step g"
  shows "call (\<lambda>d. bind_prog (f d) g) t = and_then (call f t) (call g)"
proof (cases rule: call_cases [of f t])
  case (raised e h')
  then show ?thesis by (simp add: call_def bind_prog_def and_then_def)
next
  case (returned a h')
  have "0 < length [t]" by simp
  from pure_stepD(3) [OF f this returned(1) refl] have a: "a < length h'" by simp
  obtain r2 h2 where g2: "g a h' = (r2, h2)" by (cases "g a h'")
  show ?thesis
  proof (cases r2)
    case (Inl e)
    with pure_stepD(2) [OF g a g2] have "call g (h' ! a) = Inl e" by simp
    with returned g2 Inl show ?thesis by (simp add: call_def bind_prog_def and_then_def)
  next
    case (Inr b)
    with pure_stepD(3) [OF g a g2] have "call g (h' ! a) = Inr (h2 ! b)" by simp
    with returned g2 Inr show ?thesis by (simp add: call_def bind_prog_def and_then_def)
  qed
qed


lemma pure_step_bind:
  assumes f: "pure_step f" and g: "pure_step g"
  shows "pure_step (\<lambda>d. bind_prog (f d) g)"
  unfolding pure_step_def
proof (intro allI impI)
  fix h :: "'a store" and df
  assume df: "df < length h"
  let ?t = "h ! df"
  have cb: "call (\<lambda>d. bind_prog (f d) g) ?t = and_then (call f ?t) (call g)"
    by (rule call_bind [OF f g])
  obtain r1 h1 where f1: "f df h = (r1, h1)" by (cases "f df h")
  note p1 = pure_stepD [OF f df f1]
  show "case bind_prog (f df) g h of (r, h') \<Rightarrow> prefix h h' \<and>
          (case r of Inl e \<Rightarrow> call (\<lambda>d. bind_prog (f d) g) (h ! df) = Inl e
           | Inr a \<Rightarrow> length h \<le> a \<and> a < length h' \<and>
               call (\<lambda>d. bind_prog (f d) g) (h ! df) = Inr (h' ! a))"
  proof (cases r1)
    case (Inl e)
    with p1(1) p1(2) [OF Inl] f1 show ?thesis by (simp add: cb bind_prog_def and_then_def)
  next
    case (Inr a)
    with p1(3) [OF Inr] have a: "length h \<le> a" "a < length h1" "call f ?t = Inr (h1 ! a)" by simp_all
    obtain r2 h2 where g2: "g a h1 = (r2, h2)" by (cases "g a h1")
    note p2 = pure_stepD [OF g a(2) g2]
    from p1(1) p2(1) have pre: "prefix h h2" by (rule prefix_order.trans)
    from p1(1) have len: "length h \<le> length h1" by (rule prefix_length_le)
    show ?thesis
    proof (cases r2)
      case (Inl e)
      with p2(2) [OF Inl] f1 g2 Inr pre a show ?thesis by (simp add: cb bind_prog_def and_then_def)
    next
      case r2: (Inr b)
      with p2(3) [OF r2] f1 g2 Inr pre a len show ?thesis by (simp add: cb bind_prog_def and_then_def)
    qed
  qed
qed

lemma call_after_copy:
  assumes f: "pure_step f"
  shows "call (\<lambda>d. bind_prog (df_copy d) (\<lambda>df2. f d)) t = call f t"
proof -
  have run: "bind_prog (df_copy d) (\<lambda>df2. f d) h = f d (h @ [h ! d])" for d and h :: "'a store"
    by (simp add: prog_defs)
  obtain r h' where r: "f 0 [t, t] = (r, h')" by (cases "f 0 [t, t]")
  have "0 < length [t, t]" by simp
  note p = pure_stepD [OF f this r]
  show ?thesis
  proof (cases r)
    case (Inl e)
    with p(2) [OF Inl] r show ?thesis by (simp add: call_def run)
  next
    case (Inr a)
    with p(3) [OF Inr] r show ?thesis by (simp add: call_def run)
  qed
qed

lemma pure_step_after_copy:
  assumes f: "pure_step f"
  shows "pure_step (\<lambda>d. bind_prog (df_copy d) (\<lambda>df2. f d))"
  unfolding pure_step_def
proof (intro allI impI)
  fix h :: "'a store" and df
  assume df: "df < length h"
  have run: "bind_prog (df_copy d) (\<lambda>df2. f d) h = f d (h @ [h ! d])" for d and h :: "'a store"
    by (simp add: prog_defs)
  note c = call_after_copy [OF f]
  obtain r h' where r: "f df (h @ [h ! df]) = (r, h')" by (cases "f df (h @ [h ! df])")
  from df have "df < length (h @ [h ! df])" by simp
  note p = pure_stepD [OF f this r]
  from p(1) have pre: "prefix h h'" by (meson prefix_order.trans prefixI)
  show "case bind_prog (df_copy df) (\<lambda>df2. f df) h of (r, h') \<Rightarrow> prefix h h' \<and>
        (case r of Inl e \<Rightarrow> call (\<lambda>d. bind_prog (df_copy d) (\<lambda>df2. f d)) (h ! df) = Inl e
         | Inr a \<Rightarrow> length h \<le> a \<and> a < length h' \<and>
             call (\<lambda>d. bind_prog (df_copy d) (\<lambda>df2. f d)) (h ! df) = Inr (h' ! a))"
  proof (cases r)
    case (Inl e)
    with p(2) [OF Inl] pre r df show ?thesis by (simp add: run c nth_append)
  next
    case (Inr a)
    with p(3) [OF Inr] pre r df show ?thesis by (simp add: run c nth_append)
  qed
qed


lemma bind_ret: "bind_prog m (\<lambda>x. ret x) = m"
  by (rule ext) (simp add: bind_prog_def ret_def split: prod.splits sum.splits)

text \<open>
  Two shapes of run cover the steps: one object allocated (the copy, assigned into when
  nothing raises), or two (the copy and the frame a pandas method returns).
\<close>

lemma pure_step_of_run:
  assumes run: "\<And>h df. df < length h \<Longrightarrow>
     f df h = (case g (h ! df) of
                 Inl e \<Rightarrow> (Inl e, h @ [h ! df])
               | Inr t' \<Rightarrow> (Inr (length h), h @ [t']))"
  shows "pure_step f" and "call f t = g t"
proof -
  show c: "call f t = g t" for t
    using run [of 0 "[t]"] by (simp add: call_def split: sum.splits)
  show "pure_step f"
    unfolding pure_step_def
  proof (intro allI impI)
    fix h :: "'a store" and df
    assume "df < length h"
    from run [OF this]
    show "case f df h of (r, h') \<Rightarrow> prefix h h' \<and>
        (case r of Inl e \<Rightarrow> call f (h ! df) = Inl e
         | Inr a \<Rightarrow> length h \<le> a \<and> a < length h' \<and> call f (h ! df) = Inr (h' ! a))"
      by (simp add: c split: sum.splits)
  qed
qed

lemma pure_step_of_run2:
  assumes run: "\<And>h df. df < length h \<Longrightarrow>
     f df h = (Inr (Suc (length h)), h @ [m (h ! df), g (h ! df)])"
  shows "pure_step f" and "call f t = Inr (g t)"
proof -
  show c: "call f t = Inr (g t)" for t
    using run [of 0 "[t]"] by (simp add: call_def)
  show "pure_step f"
    unfolding pure_step_def
  proof (intro allI impI)
    fix h :: "'a store" and df
    assume "df < length h"
    from run [OF this]
    show "case f df h of (r, h') \<Rightarrow> prefix h h' \<and>
        (case r of Inl e \<Rightarrow> call f (h ! df) = Inl e
         | Inr a \<Rightarrow> length h \<le> a \<and> a < length h' \<and> call f (h ! df) = Inr (h' ! a))"
      by (simp add: c nth_append)
  qed
qed

lemma clean_gender_run:
  "df < length h \<Longrightarrow> clean_gender df c h =
     (case assign_col (apply_each gender_lambda) c (h ! df) of
        Inl e \<Rightarrow> (Inl e, h @ [h ! df])
      | Inr t' \<Rightarrow> (Inr (length h), h @ [t']))"
  by (simp add: clean_gender_def prog_defs assign_col_def nth_append
      split: option.splits sum.splits)

lemma clean_clv_run:
  "df < length h \<Longrightarrow> clean_clv df c h =
     (case assign_col (apply_each clv_lambda) c (h ! df) of
        Inl e \<Rightarrow> (Inl e, h @ [h ! df])
      | Inr t' \<Rightarrow> (Inr (length h), h @ [t']))"
  by (simp add: clean_clv_def prog_defs assign_col_def nth_append
      split: option.splits sum.splits)

lemma replace_run:
  "df < length h \<Longrightarrow>
     bind_prog (df_copy df) (\<lambda>df2.
     bind_prog (getitem df2 c) (\<lambda>s.
     bind_prog (setitem df2 c (series_replace m s)) (\<lambda>_.
     ret df2))) h =
     (case assign_col (\<lambda>s. Inr (series_replace m s)) c (h ! df) of
        Inl e \<Rightarrow> (Inl e, h @ [h ! df])
      | Inr t' \<Rightarrow> (Inr (length h), h @ [t']))"
  by (simp add: prog_defs assign_col_def nth_append split: option.splits sum.splits)

lemma split_keep_middle_run:
  "df < length h \<Longrightarrow> split_keep_middle df c h =
     (case assign_col (\<lambda>s. case str_split_series CHR ''/'' s of
                              Inl e \<Rightarrow> Inl e
                            | Inr ps \<Rightarrow> Inr (str_get_series 1 ps)) c (h ! df) of
        Inl e \<Rightarrow> (Inl e, h @ [h ! df])
      | Inr t' \<Rightarrow> (Inr (length h), h @ [t']))"
  by (simp add: split_keep_middle_def prog_defs assign_col_def nth_append
      split: option.splits sum.splits)

lemma fill_with_mean_run:
  "df < length h \<Longrightarrow> fill_with_mean ops df c h =
     (case assign_col (\<lambda>s. case astype_float ops s of
                              Inl e \<Rightarrow> Inl e
                            | Inr s' \<Rightarrow> Inr (fillna (series_mean ops s') s')) c (h ! df) of
        Inl e \<Rightarrow> (Inl e, h @ [h ! df])
      | Inr t' \<Rightarrow> (Inr (length h), h @ [t']))"
  by (simp add: fill_with_mean_def prog_defs assign_col_def nth_append update_conv'
      split: option.splits sum.splits)

lemma num_to_int_run:
  "df < length h \<Longrightarrow> num_to_int ops df h =
     (case assign_ints ops (h ! df) of
        Inl e \<Rightarrow> (Inl e, h @ [h ! df])
      | Inr t' \<Rightarrow> (Inr (length h), h @ [t']))"
  by (simp add: num_to_int_def prog_defs assign_ints_def nth_append
      split: option.splits sum.splits)

lemma zip_map_snd: "zip (map f xs) (map snd xs) = map (\<lambda>c. (f c, snd c)) xs"
  by (induction xs) simp_all

lemma clean_col_name_run:
  "df < length h \<Longrightarrow> clean_col_name df h =
     (Inr (Suc (length h)),
      h @ [(h ! df)\<lparr>cols := map (\<lambda>c. (str_replace CHR '' '' ''_'' (str_lower (fst c)), snd c))
                                (cols (h ! df))\<rparr>,
           normalized_names (h ! df)])"
  by (simp add: clean_col_name_def prog_defs nth_append normalized_names_def zip_map_snd o_def)

lemma drop_null_rows_run:
  "df < length h \<Longrightarrow> drop_null_rows df h =
     (Inr (Suc (length h)), h @ [h ! df, dropna_all (h ! df)])"
  by (simp add: drop_null_rows_def prog_defs nth_append)

text \<open>Every step is pure, and its value on a frame has a closed form.\<close>

lemma clean_col_name_pure: "pure_step clean_col_name"
  and clean_col_name_call: "call clean_col_name t = Inr (normalized_names t)"
  by (rule pure_step_of_run2 [of clean_col_name, OF clean_col_name_run]; assumption)+

lemma drop_null_rows_pure: "pure_step drop_null_rows"
  and drop_null_rows_call: "call drop_null_rows t = Inr (dropna_all t)"
  by (rule pure_step_of_run2 [of drop_null_rows, OF drop_null_rows_run]; assumption)+

lemma clean_gender_pure: "pure_step (\<lambda>d. clean_gender d c)"
  and clean_gender_call:
    "call (\<lambda>d. clean_gender d c) t = assign_col (apply_each gender_lambda) c t"
  by (rule pure_step_of_run [of "\<lambda>d. clean_gender d c", OF clean_gender_run]; assumption)+

lemma clean_clv_pure: "pure_step (\<lambda>d. clean_clv d c)"
  and clean_clv_call:
    "call (\<lambda>d. clean_clv d c) t = assign_col (apply_each clv_lambda) c t"
  by (rule pure_step_of_run [of "\<lambda>d. clean_clv d c", OF clean_clv_run]; assumption)+

lemma clean_state_pure: "pure_step (\<lambda>d. clean_state d c)"
  and clean_state_call:
    "call (\<lambda>d. clean_state d c) t = assign_col (\<lambda>s. Inr (series_replace state_dict s)) c t"
  unfolding clean_state_def
  by (rule pure_step_of_run [OF replace_run]; assumption)+

lemma clean_education_pure: "pure_step (\<lambda>d. clean_education d c)"
  and clean_education_call:
    "call (\<lambda>d. clean_education d c) t =
       assign_col (\<lambda>s. Inr (series_replace [(''Bachelors'', ''Bachelor'')] s)) c t"
  unfolding clean_education_def
  by (rule pure_step_of_run [OF replace_run]; assumption)+

lemma clean_car_class_pure: "pure_step (\<lambda>d. clean_car_class d c)"
  and clean_car_class_call:
    "call (\<lambda>d. clean_car_class d c) t =
       assign_col (\<lambda>s. Inr (series_replace car_classes_dict s)) c t"
  unfolding clean_car_class_def
  by (rule pure_step_of_run [OF replace_run]; assumption)+

lemma split_keep_middle_pure: "pure_step (\<lambda>d. split_keep_middle d c)"
  and split_keep_middle_call:
    "call (\<lambda>d. split_keep_middle d c) t =
       assign_col (\<lambda>s. case str_split_series CHR ''/'' s of
                          Inl e \<Rightarrow> Inl e
                        | Inr ps \<Rightarrow> Inr (str_get_series 1 ps)) c t"
  by (rule pure_step_of_run [of "\<lambda>d. split_keep_middle d c", OF split_keep_middle_run];
      assumption)+

lemma fill_with_mean_pure: "pure_step (\<lambda>d. fill_with_mean ops d c)"
  and fill_with_mean_call:
    "call (\<lambda>d. fill_with_mean ops d c) t =
       assign_col (\<lambda>s. case astype_float ops s of
                          Inl e \<Rightarrow> Inl e
                        | Inr s' \<Rightarrow> Inr (fillna (series_mean ops s') s')) c t"
  by (rule pure_step_of_run [of "\<lambda>d. fill_with_mean ops d c", OF fill_with_mean_run];
      assumption)+

lemma num_to_int_pure: "pure_step (num_to_int ops)"
  and num_to_int_call: "call (num_to_int ops) t = assign_ints ops t"
  by (rule pure_step_of_run [of "num_to_int ops", OF num_to_int_run]; assumption)+


section \<open>The pipeline runner\<close>

lemma clean_dataframe_steps:
  "clean_dataframe ops df column =
     bind_prog (df_copy df) (\<lambda>df2.
     bind_prog (clean_col_name df) (\<lambda>df2.
     bind_prog (drop_null_rows df2) (\<lambda>df2.
     bind_prog (clean_gender df2 ''gender'') (\<lambda>df2.
     bind_prog (clean_state df2 ''state'') (\<lambda>df2.
     bind_prog (clean_education df2 ''education'') (\<lambda>df2.
     bind_prog (clean_clv df2 ''customer_lifetime_value'') (\<lambda>df2.
     bind_prog (split_keep_middle df2 ''number_of_open_complaints'') (\<lambda>df2.
     fill_with_mean ops df2 ''customer_lifetime_value''))))))))"
  by (simp add: clean_dataframe_def bind_ret)

text \<open>
  The runner after its first statement (a copy it never uses): each step is pure, so
  the frame a step returns is all the next one depends on.
\<close>

lemma pipeline_tail:
  fixes ops :: "'f float_ops"
  defines "s8 \<equiv> (\<lambda>d. fill_with_mean ops d ''customer_lifetime_value'')"
  defines "s7 \<equiv> (\<lambda>d. bind_prog (split_keep_middle d ''number_of_open_complaints'') s8)"
  defines "s6 \<equiv> (\<lambda>d. bind_prog (clean_clv d ''customer_lifetime_value'') s7)"
  defines "s5 \<equiv> (\<lambda>d. bind_prog (clean_education d ''education'') s6)"
  defines "s4 \<equiv> (\<lambda>d. bind_prog (clean_state d ''state'') s5)"
  defines "s3 \<equiv> (\<lambda>d. bind_prog (clean_gender d ''gender'') s4)"
  defines "s2 \<equiv> (\<lambda>d. bind_prog (drop_null_rows d) s3)"
  defines "s1 \<equiv> (\<lambda>d. bind_prog (clean_col_name d) s2)"
  shows "pure_step s1" and "call s1 t = pipeline_spec ops t"
proof -
  have p8: "pure_step s8"
    unfolding s8_def by (rule fill_with_mean_pure)
  have p7: "pure_step s7"
    unfolding s7_def by (rule pure_step_bind [OF split_keep_middle_pure p8])
  have p6: "pure_step s6"
    unfolding s6_def by (rule pure_step_bind [OF clean_clv_pure p7])
  have p5: "pure_step s5"
    unfolding s5_def by (rule pure_step_bind [OF clean_education_pure p6])
  have p4: "pure_step s4"
    unfolding s4_def by (rule pure_step_bind [OF clean_state_pure p5])
  have p3: "pure_step s3"
    unfolding s3_def by (rule pure_step_bind [OF clean_gender_pure p4])
  have p2: "pure_step s2"
    unfolding s2_def by (rule pure_step_bind [OF drop_null_rows_pure p3])
  show p1: "pure_step s1"
    unfolding s1_def by (rule pure_step_bind [OF clean_col_name_pure p2])
  have c7: "call s7 =
      (\<lambda>t. and_then (call (\<lambda>d. split_keep_middle d ''number_of_open_complaints'') t) (call s8))"
    unfolding s7_def by (rule ext) (rule call_bind [OF split_keep_middle_pure p8])
  have c6: "call s6 =
      (\<lambda>t. and_then (call (\<lambda>d. clean_clv d ''customer_lifetime_value'') t) (call s7))"
    unfolding s6_def by (rule ext) (rule call_bind [OF clean_clv_pure p7])
  have c5: "call s5 = (\<lambda>t. and_then (call (\<lambda>d. clean_education d ''education'') t) (call s6))"
    unfolding s5_def by (rule ext) (rule call_bind [OF clean_education_pure p6])
  have c4: "call s4 = (\<lambda>t. and_then (call (\<lambda>d. clean_state d ''state'') t) (call s5))"
    unfolding s4_def by (rule ext) (rule call_bind [OF clean_state_pure p5])
  have c3: "call s3 = (\<lambda>t. and_then (call (\<lambda>d. clean_gender d ''gender'') t) (call s4))"
    unfolding s3_def by (rule ext) (rule call_bind [OF clean_gender_pure p4])
  have c2: "call s2 = (\<lambda>t. and_then (call drop_null_rows t) (call s3))"
    unfolding s2_def by (rule ext) (rule call_bind [OF drop_null_rows_pure p3])
  have c1: "call s1 t = and_then (call clean_col_name t) (call s2)"
    unfolding s1_def by (rule call_bind [OF clean_col_name_pure p2])
  show "call s1 t = pipeline_spec ops t"
    unfolding c1 c2 c3 c4 c5 c6 c7 pipeline_spec_def s8_def ..
qed

lemma clean_dataframe_pure: "pure_step (\<lambda>d. clean_dataframe ops d column)"
  unfolding clean_dataframe_steps by (rule pure_step_after_copy [OF pipeline_tail(1)])

text \<open>
  Claim C4. For every input frame, what \<open>clean_dataframe\<close> returns or raises is what
  the sequence Column Name Normalizer, Null-Row Dropper, Gender Cleaner, State Cleaner,
  Education Cleaner, Lifetime Value Cleaner, Complaints Splitter, Mean Imputer gives,
  in this order and each with its default column (\<open>pipeline_spec\<close>); the Vehicle Class
  Cleaner and the Numeric Coercion are not among the steps.
\<close>

theorem clean_dataframe_is_pipeline:
  "call (\<lambda>d. clean_dataframe ops d column) t = pipeline_spec ops t"
  unfolding clean_dataframe_steps
  by (simp only: call_after_copy [OF pipeline_tail(1)] pipeline_tail(2))

text \<open>
  A run of the pipeline on two rows, the second all null. The row of nulls is dropped,
  the labels are normalised, the lifetime value has no number to take a mean of and
  stays null, and the vehicle class, which no step of the runner touches, keeps
  \<open>Sports Car\<close>.
\<close>

theorem clean_dataframe_is_pipeline_witness:
  "\<forall>(ops :: nat float_ops) (column :: string).
     call (\<lambda>d. clean_dataframe ops d column)
       \<lparr>index = [0, 1],
        cols = [(''ST'', [Text ''AZ'', Null]),
                (''GENDER'', [Text ''female'', Null]),
                (''Education'', [Text ''Bachelors'', Null]),
                (''Customer Lifetime Value'', [Null, Null]),
                (''Number of Open Complaints'', [Text ''1/5/00'', Null]),
                (''Vehicle Class'', [Text ''Sports Car'', Null])]\<rparr>
     = Inr \<lparr>index = [0],
        cols = [(''state'', [Text ''Arizona'']),
                (''gender'', [Text ''F'']),
                (''education'', [Text ''Bachelor'']),
                (''customer_lifetime_value'', [Null]),
                (''number_of_open_complaints'', [Text ''5'']),
                (''vehicle_class'', [Text ''Sports Car''])]\<rparr>"
  by (simp add: clean_dataframe_is_pipeline pipeline_spec_def and_then_def
      clean_col_name_call normalized_names_def rename_label_def str_lower_def lower_char_def
      str_replace_def drop_null_rows_call dropna_all_def keep_mask_def select_rows_def
      clean_gender_call clean_state_call clean_education_call clean_clv_call
      split_keep_middle_call fill_with_mean_call assign_col_def gender_lambda_def
      str_upper_def upper_char_def series_replace_def replace_cell_def state_dict_def
      clv_lambda_def str_split_series_def str_accessor_def split_cell_def str_get_series_def
      segment_def astype_float_def float_cell_def series_mean_def fillna_def fill_cell_def)

text \<open>
  Claim C10. The second parameter of \<open>clean_dataframe\<close> is ignored: for any two values
  passed as \<open>column\<close>, of any types, the runner is the same program, so its result
  depends on the frame only.
\<close>

theorem clean_dataframe_ignores_column:
  "clean_dataframe ops df c1 = clean_dataframe ops df c2"
  by (simp add: clean_dataframe_def)

section \<open>A column that is not there\<close>

lemma assign_col_absent:
  "column \<notin> fst ` set (cols t) \<Longrightarrow> assign_col F column t = Inl KeyError"
  by (simp add: assign_col_def map_of_eq_None_iff [THEN iffD2])

text \<open>
  Claim C8. For every frame that has no column of the given label, each per-column
  cleaner (Gender, State, Education, Vehicle Class, Lifetime Value, Complaints Splitter,
  Mean Imputer) raises KeyError, the column-not-found error, and returns no frame.
\<close>

theorem absent_column_raises:
  assumes "column \<notin> fst ` set (cols t)"
  shows "call (\<lambda>d. clean_gender d column) t = Inl KeyError \<and>
         call (\<lambda>d. clean_state d column) t = Inl KeyError \<and>
         call (\<lambda>d. clean_education d column) t = Inl KeyError \<and>
         call (\<lambda>d. clean_car_class d column) t = Inl KeyError \<and>
         call (\<lambda>d. clean_clv d column) t = Inl KeyError \<and>
         call (\<lambda>d. split_keep_middle d column) t = Inl KeyError \<and>
         call (\<lambda>d. fill_with_mean ops d column) t = Inl KeyError"
  using assms
  by (simp add: clean_gender_call clean_state_call clean_education_call clean_car_class_call
      clean_clv_call split_keep_middle_call fill_with_mean_call assign_col_absent)

theorem absent_column_raises_witness:
  "\<forall>ops :: nat float_ops.
     ''gender'' \<notin> fst ` set (cols \<lparr>index = [0], cols = [(''state'', [Text ''AZ'' :: nat cell])]\<rparr>) \<and>
     call (\<lambda>d. clean_gender d ''gender'')
       \<lparr>index = [0], cols = [(''state'', [Text ''AZ'' :: nat cell])]\<rparr> = Inl KeyError \<and>
     call (\<lambda>d. fill_with_mean ops d ''gender'')
       \<lparr>index = [0], cols = [(''state'', [Text ''AZ'' :: nat cell])]\<rparr> = Inl KeyError"
proof
  fix ops :: "nat float_ops"
  have absent:
    "''gender'' \<notin> fst ` set (cols \<lparr>index = [0], cols = [(''state'', [Text ''AZ'' :: nat cell])]\<rparr>)"
    by simp
  from absent absent_column_raises [OF absent, of ops]
  show "''gender'' \<notin> fst ` set (cols \<lparr>index = [0], cols = [(''state'', [Text ''AZ'' :: nat cell])]\<rparr>) \<and>
     call (\<lambda>d. clean_gender d ''gender'')
       \<lparr>index = [0], cols = [(''state'', [Text ''AZ'' :: nat cell])]\<rparr> = Inl KeyError \<and>
     call (\<lambda>d. fill_with_mean ops d ''gender'')
       \<lparr>index = [0], cols = [(''state'', [Text ''AZ'' :: nat cell])]\<rparr> = Inl KeyError"
    by simp
qed

section \<open>The Gender Cleaner\<close>

lemma apply_each_map:
  "(\<And>x. x \<in> set xs \<Longrightarrow> f x = Inr (g x)) \<Longrightarrow> apply_each f xs = Inr (map g xs)"
  by (induction xs) simp_all

lemma apply_each_idem:
  assumes "\<And>x y. f x = Inr y \<Longrightarrow> f y = Inr y"
  shows "apply_each f xs = Inr ys \<Longrightarrow> apply_each f ys = Inr ys"
proof (induction xs arbitrary: ys)
  case Nil
  then show ?case by simp
next
  case (Cons x xs)
  then show ?case
    by (auto split: sum.splits dest: assms)
qed

lemma upper_char_M: "upper_char CHR ''M'' = CHR ''M''"
  and upper_char_F: "upper_char CHR ''F'' = CHR ''F''"
  and upper_char_D: "upper_char CHR ''D'' = CHR ''D''"
  by (simp_all add: upper_char_def)

lemma gender_lambda_domain:
  assumes "gender_lambda x = Inr y"
  shows "y = Text ''M'' \<or> y = Text ''F'' \<or> y = Text ''D''"
proof (cases x)
  case Null
  with assms show ?thesis by (simp add: gender_lambda_def)
next
  case (Text s)
  with assms show ?thesis
    by (cases s) (auto simp: gender_lambda_def split: if_splits)
next
  case (Num v)
  with assms show ?thesis by (simp add: gender_lambda_def)
qed

lemma gender_lambda_idem: "gender_lambda x = Inr y \<Longrightarrow> gender_lambda y = Inr y"
  using gender_lambda_domain [of x y]
  by (auto simp: gender_lambda_def str_upper_def upper_char_M upper_char_F upper_char_D)

text \<open>
  Where \<open>clean_gender\<close> returns, every cell of the column is \<open>M\<close>, \<open>F\<close> or \<open>D\<close>.
\<close>

lemma apply_each_set:
  "apply_each f xs = Inr ys \<Longrightarrow> y \<in> set ys \<Longrightarrow> \<exists>x\<in>set xs. f x = Inr y"
  by (induction xs arbitrary: ys) (auto split: sum.splits)

lemma clean_gender_output_domain:
  assumes "call (\<lambda>d. clean_gender d c) t = Inr t'"
  shows "\<exists>ys. map_of (cols t') c = Some ys \<and>
           list_all (\<lambda>y. y = Text ''M'' \<or> y = Text ''F'' \<or> y = Text ''D'') ys"
proof -
  from assms obtain xs ys where xs: "map_of (cols t) c = Some xs"
    and ys: "apply_each gender_lambda xs = Inr ys"
    and t': "t' = t\<lparr>cols := AList.update c ys (cols t)\<rparr>"
    by (auto simp: clean_gender_call assign_col_def split: option.splits sum.splits)
  have "list_all (\<lambda>y. y = Text ''M'' \<or> y = Text ''F'' \<or> y = Text ''D'') ys"
    unfolding list_all_iff using apply_each_set [OF ys] gender_lambda_domain by blast
  with t' show ?thesis by (simp add: update_conv')
qed

text \<open>
  Claim C1 promises \<open>D\<close> for every cell that does not start with \<open>m\<close> or \<open>f\<close>,
  the empty string included, as the docstring of \<open>clean_gender\<close> does ("NaNs or
  Others will be replaced by D"). On an empty string the lambda evaluates \<^verbatim>\<open>x[0]\<close>,
  which raises IndexError, and no frame is returned.
\<close>

theorem clean_gender_empty_string_raises:
  "call (\<lambda>d. clean_gender d ''gender'')
     \<lparr>index = [0], cols = [(''gender'', [Text [] :: nat cell])]\<rparr> = Inl IndexError"
  by (simp add: clean_gender_call assign_col_def gender_lambda_def)

section \<open>The State, Education and Vehicle Class Cleaners\<close>

lemma assign_col_idem:
  assumes "\<And>s s'. F s = Inr s' \<Longrightarrow> F s' = Inr s'"
  shows "and_then (assign_col F c t) (assign_col F c) = assign_col F c t"
proof (cases "map_of (cols t) c")
  case None
  then show ?thesis by (simp add: assign_col_def and_then_def)
next
  case (Some s)
  show ?thesis
  proof (cases "F s")
    case (Inl e)
    with Some show ?thesis by (simp add: assign_col_def and_then_def)
  next
    case (Inr s')
    with Some assms [OF Inr] show ?thesis
      by (simp add: assign_col_def and_then_def update_conv')
  qed
qed

lemma replace_cell_off_keys:
  "x \<notin> Text ` fst ` set m \<Longrightarrow> replace_cell m x = x"
proof (cases x)
  case (Text s)
  assume "x \<notin> Text ` fst ` set m"
  with Text have "s \<notin> fst ` set m" by auto
  then have "map_of m s = None" by (simp add: map_of_eq_None_iff)
  with Text show ?thesis by (simp add: replace_cell_def)
qed (simp_all add: replace_cell_def)

lemma replace_cell_state_idem:
  "replace_cell state_dict (replace_cell state_dict x) = replace_cell state_dict x"
  by (cases x) (simp_all add: replace_cell_def state_dict_def)

lemma replace_cell_education_idem:
  "replace_cell [(''Bachelors'', ''Bachelor'')] (replace_cell [(''Bachelors'', ''Bachelor'')] x)
     = replace_cell [(''Bachelors'', ''Bachelor'')] x"
  by (cases x) (simp_all add: replace_cell_def)

lemma replace_cell_car_idem:
  "replace_cell car_classes_dict (replace_cell car_classes_dict x) = replace_cell car_classes_dict x"
  by (cases x) (simp_all add: replace_cell_def car_classes_dict_def)

lemma idempotent_of_assign:
  assumes "\<And>t. call f t = assign_col F c t" and "\<And>s s'. F s = Inr s' \<Longrightarrow> F s' = Inr s'"
  shows "idempotent_step f"
proof -
  have "call f = assign_col F c" using assms(1) by (rule ext)
  with assign_col_idem [of F, OF assms(2)] show ?thesis
    by (simp add: idempotent_step_def)
qed

lemma identity_of_replace:
  assumes "\<And>t. call f t = assign_col (\<lambda>s. Inr (series_replace m s)) c t"
  shows "identity_off_keys f c (map fst m)"
  unfolding identity_off_keys_def
proof (intro allI impI)
  fix t :: "'a table" and xs
  assume xs: "map_of (cols t) c = Some xs"
  let ?ys = "series_replace m xs"
  have "call f t = Inr (t\<lparr>cols := AList.update c ?ys (cols t)\<rparr>)"
    using xs by (simp add: assms assign_col_def)
  moreover have "map_of (cols (t\<lparr>cols := AList.update c ?ys (cols t)\<rparr>)) c = Some ?ys"
    by (simp add: update_conv')
  moreover have "length ?ys = length xs"
    by (simp add: series_replace_def)
  moreover have "\<forall>i<length xs. xs ! i \<notin> Text ` set (map fst m) \<longrightarrow> ?ys ! i = xs ! i"
    by (simp add: series_replace_def replace_cell_off_keys)
  ultimately show "\<exists>t' ys. call f t = Inr t' \<and> map_of (cols t') c = Some ys \<and>
           length ys = length xs \<and>
           (\<forall>i<length xs. xs ! i \<notin> Text ` set (map fst m) \<longrightarrow> ys ! i = xs ! i)"
    by blast
qed

text \<open>
  Claim C6 as stated has the Gender Cleaner, too, keep every value that is not a key of
  a mapping, nulls included. It has no mapping and keeps neither a null nor any text
  but \<open>M\<close>, \<open>F\<close> and \<open>D\<close>: both become \<open>D\<close>, so it is the identity off no list
  of keys.
\<close>

theorem clean_gender_not_identity:
  "call (\<lambda>d. clean_gender d ''gender'')
     \<lparr>index = [0, 1], cols = [(''gender'', [Null, Text ''x'' :: nat cell])]\<rparr>
   = Inr \<lparr>index = [0, 1], cols = [(''gender'', [Text ''D'', Text ''D''])]\<rparr> \<and>
   (\<forall>keys. \<not> identity_off_keys (\<lambda>d. clean_gender d ''gender'' :: (nat, nat) prog) ''gender'' keys)"
proof (intro conjI allI notI)
  let ?t = "\<lparr>index = [0, 1], cols = [(''gender'', [Null, Text ''x'' :: nat cell])]\<rparr>"
  let ?t' = "\<lparr>index = [0, 1], cols = [(''gender'', [Text ''D'', Text ''D'' :: nat cell])]\<rparr>"
  show run: "call (\<lambda>d. clean_gender d ''gender'') ?t = Inr ?t'"
    by (simp add: clean_gender_call assign_col_def gender_lambda_def str_upper_def upper_char_def)
  fix keys
  assume idk: "identity_off_keys (\<lambda>d. clean_gender d ''gender'' :: (nat, nat) prog) ''gender'' keys"
  have wf: "wf_table ?t" by (simp add: wf_table_def)
  let ?xs = "[Null, Text ''x'' :: nat cell]"
  have col: "map_of (cols ?t) ''gender'' = Some ?xs" by simp
  from idk [unfolded identity_off_keys_def, rule_format, OF wf col]
  obtain t' ys where t': "call (\<lambda>d. clean_gender d ''gender'') ?t = Inr t'"
    and ys: "map_of (cols t') ''gender'' = Some ys"
    and keep: "\<forall>i<length ?xs. ?xs ! i \<notin> Text ` set keys \<longrightarrow> ys ! i = ?xs ! i"
    by blast
  from run t' ys have "ys = [Text ''D'', Text ''D'']" by auto
  moreover from keep have "ys ! 0 = Null" by auto
  ultimately show False by simp
qed

text \<open>
  Claim C6, amended. The State, Education, Vehicle Class and Gender Cleaners are
  idempotent: called on the frame they returned, they return it again. The three
  cleaners with a fixed mapping, and not the Gender Cleaner, are the identity off its
  keys (State: AZ, Cali, WA; Education: Bachelors; Vehicle Class: Sports Car, Luxury
  SUV, Luxury Car): on every frame that has the column they return a frame, and every
  cell that is not a key, a null included, is in it unchanged.
\<close>

theorem cleaners_idempotent_identity:
  "idempotent_step (\<lambda>d. clean_state d column) \<and>
   idempotent_step (\<lambda>d. clean_education d column) \<and>
   idempotent_step (\<lambda>d. clean_car_class d column) \<and>
   idempotent_step (\<lambda>d. clean_gender d column) \<and>
   identity_off_keys (\<lambda>d. clean_state d column) column [''AZ'', ''Cali'', ''WA''] \<and>
   identity_off_keys (\<lambda>d. clean_education d column) column [''Bachelors''] \<and>
   identity_off_keys (\<lambda>d. clean_car_class d column) column
     [''Sports Car'', ''Luxury SUV'', ''Luxury Car'']"
proof (intro conjI)
  show "idempotent_step (\<lambda>d. clean_state d column)"
    by (rule idempotent_of_assign [OF clean_state_call])
      (auto simp: series_replace_def replace_cell_state_idem)
  show "idempotent_step (\<lambda>d. clean_education d column)"
    by (rule idempotent_of_assign [OF clean_education_call])
      (auto simp: series_replace_def replace_cell_education_idem)
  show "idempotent_step (\<lambda>d. clean_car_class d column)"
    by (rule idempotent_of_assign [OF clean_car_class_call])
      (auto simp: series_replace_def replace_cell_car_idem)
  show "idempotent_step (\<lambda>d. clean_gender d column)"
    by (rule idempotent_of_assign [OF clean_gender_call])
      (rule apply_each_idem [OF gender_lambda_idem])
  show "identity_off_keys (\<lambda>d. clean_state d column) column [''AZ'', ''Cali'', ''WA'']"
    using identity_of_replace [OF clean_state_call, of column] by (simp add: state_dict_def)
  show "identity_off_keys (\<lambda>d. clean_education d column) column [''Bachelors'']"
    using identity_of_replace [OF clean_education_call, of column] by simp
  show "identity_off_keys (\<lambda>d. clean_car_class d column) column
     [''Sports Car'', ''Luxury SUV'', ''Luxury Car'']"
    using identity_of_replace [OF clean_car_class_call, of column]
    by (simp add: car_classes_dict_def)
qed


theorem cleaners_idempotent_identity_witness:
  "wf_table \<lparr>index = [0, 1, 2], cols = [(''state'', [Text ''AZ'', Null, Text ''Oregon'' :: nat cell])]\<rparr> \<and>
   call (\<lambda>d. clean_state d ''state'')
     \<lparr>index = [0, 1, 2], cols = [(''state'', [Text ''AZ'', Null, Text ''Oregon'' :: nat cell])]\<rparr>
   = Inr \<lparr>index = [0, 1, 2], cols = [(''state'', [Text ''Arizona'', Null, Text ''Oregon''])]\<rparr> \<and>
   call (\<lambda>d. clean_state d ''state'')
     \<lparr>index = [0, 1, 2], cols = [(''state'', [Text ''Arizona'', Null, Text ''Oregon'' :: nat cell])]\<rparr>
   = Inr \<lparr>index = [0, 1, 2], cols = [(''state'', [Text ''Arizona'', Null, Text ''Oregon''])]\<rparr>"
proof -
  let ?t = "\<lparr>index = [0, 1, 2], cols = [(''state'', [Text ''AZ'', Null, Text ''Oregon'' :: nat cell])]\<rparr>"
  let ?t' = "\<lparr>index = [0, 1, 2], cols = [(''state'', [Text ''Arizona'', Null, Text ''Oregon'' :: nat cell])]\<rparr>"
  have wf: "wf_table ?t" by (simp add: wf_table_def)
  have once: "call (\<lambda>d. clean_state d ''state'') ?t = Inr ?t'"
    by (simp add: clean_state_call assign_col_def series_replace_def replace_cell_def
        state_dict_def)
  from cleaners_idempotent_identity [of "''state''"]
  have "idempotent_step (\<lambda>d. clean_state d ''state'' :: (nat, nat) prog)"
    by (rule conjunct1)
  with wf have "and_then (call (\<lambda>d. clean_state d ''state'') ?t) (call (\<lambda>d. clean_state d ''state''))
      = call (\<lambda>d. clean_state d ''state'') ?t"
    unfolding idempotent_step_def by blast
  with once have "call (\<lambda>d. clean_state d ''state'') ?t' = Inr ?t'"
    by (simp add: and_then_def)
  with wf once show ?thesis by simp
qed

section \<open>The Lifetime Value Cleaner\<close>

lemma str_replace_delete: "str_replace c [] s = filter (\<lambda>x. x \<noteq> c) s"
  by (induction s) (simp_all add: str_replace_def)

lemma clv_lambda_text_or_null:
  "x = Null \<or> is_text x \<Longrightarrow> clv_lambda x = Inr (strip_percent x)"
  by (cases x) (simp_all add: clv_lambda_def strip_percent_def str_replace_delete)

text \<open>
  Claim C7. On every frame whose target column holds only nulls and texts, \<open>clean_clv\<close>
  returns the frame with that column mapped cell by cell: a text loses every \<open>%\<close>
  and stays a text (nothing is converted to a number), a null stays null.
\<close>

theorem clean_clv_strips_percent:
  assumes "wf_table t" and "map_of (cols t) column = Some xs"
    and "list_all (\<lambda>x. x = Null \<or> is_text x) xs"
  shows "call (\<lambda>d. clean_clv d column) t =
           Inr (t\<lparr>cols := AList.update column (map strip_percent xs) (cols t)\<rparr>) \<and>
         list_all (\<lambda>x. x = Null \<or> is_text x) (map strip_percent xs) \<and>
         strip_percent (Null :: 'f cell) = Null \<and>
         (\<forall>s. \<exists>s'. strip_percent (Text s :: 'f cell) = Text s' \<and> CHR ''%'' \<notin> set s')"
proof -
  from assms(3) have "apply_each clv_lambda xs = Inr (map strip_percent xs)"
    by (intro apply_each_map clv_lambda_text_or_null) (simp add: list_all_iff)
  with assms(2) have "call (\<lambda>d. clean_clv d column) t =
           Inr (t\<lparr>cols := AList.update column (map strip_percent xs) (cols t)\<rparr>)"
    by (simp add: clean_clv_call assign_col_def)
  moreover from assms(3) have "list_all (\<lambda>x. x = Null \<or> is_text x) (map strip_percent xs)"
    by (induction xs) (auto simp: strip_percent_def split: cell.splits)
  ultimately show ?thesis
    by (simp add: strip_percent_def)
qed

text \<open>The example of the specification: \<open>15.5%\<close> becomes the text \<open>15.5\<close>.\<close>

theorem clean_clv_strips_percent_witness:
  "wf_table \<lparr>index = [0, 1], cols = [(''customer_lifetime_value'',
       [Text ''15.5%'', Null :: nat cell])]\<rparr> \<and>
   call (\<lambda>d. clean_clv d ''customer_lifetime_value'')
     \<lparr>index = [0, 1], cols = [(''customer_lifetime_value'', [Text ''15.5%'', Null :: nat cell])]\<rparr>
   = Inr \<lparr>index = [0, 1], cols = [(''customer_lifetime_value'', [Text ''15.5'', Null])]\<rparr>"
proof -
  let ?xs = "[Text ''15.5%'', Null :: nat cell]"
  let ?t = "\<lparr>index = [0, 1], cols = [(''customer_lifetime_value'', ?xs)]\<rparr>"
  have wf: "wf_table ?t" by (simp add: wf_table_def)
  have col: "map_of (cols ?t) ''customer_lifetime_value'' = Some ?xs" by simp
  have ok: "list_all (\<lambda>x. x = Null \<or> is_text x) ?xs" by simp
  from clean_clv_strips_percent [OF wf col ok]
  have "call (\<lambda>d. clean_clv d ''customer_lifetime_value'') ?t =
      Inr (?t\<lparr>cols := AList.update ''customer_lifetime_value'' (map strip_percent ?xs) (cols ?t)\<rparr>)"
    by (rule conjunct1)
  with wf show ?thesis by (simp add: strip_percent_def)
qed

section \<open>The Complaints Splitter\<close>

lemma segment_split: "segment (Suc 0) (split_cell CHR ''/'' x) = second_segment x"
  by (cases x) (simp_all add: segment_def split_cell_def second_segment_def split: list.splits)

lemma str_split_nonempty: "str_split sep s \<noteq> []"
  by (induction s) (simp_all split: list.splits)

lemma str_split_no_sep: "sep \<notin> set s \<Longrightarrow> str_split sep s = [s]"
  by (induction s) (auto split: list.splits)


text \<open>
  Claim C5 as stated, for every frame that has the column, fails on a column of numbers
  and nulls: \<^verbatim>\<open>.str\<close> raises AttributeError there, and the null cell yields no
  null cell.
\<close>

theorem split_keep_middle_numeric_raises:
  "call (\<lambda>d. split_keep_middle d ''number_of_open_complaints'')
     \<lparr>index = [0, 1], cols = [(''number_of_open_complaints'', [Num (3::nat), Null])]\<rparr>
   = Inl AttributeError"
  by (simp add: split_keep_middle_call assign_col_def str_split_series_def str_accessor_def)

lemma str_accessor_ok: "list_ex is_text xs \<Longrightarrow> str_accessor xs = Inr xs"
  by (simp add: str_accessor_def)

text \<open>
  Claim C5, amended. On every frame whose target column holds at least one text,
  \<open>split_keep_middle\<close> returns the frame with that column mapped cell by cell to the
  second segment of the split on \<open>/\<close>: null for a null, for a text without \<open>/\<close>
  and for any cell that is no text; \<open>1/5/00\<close> gives \<open>5\<close> and \<open>3/10/05\<close> gives
  \<open>10\<close>.
\<close>

theorem split_keep_middle_second_segment:
  assumes "wf_table t" and "map_of (cols t) column = Some xs"
    and "list_ex is_text xs"
  shows "call (\<lambda>d. split_keep_middle d column) t =
           Inr (t\<lparr>cols := AList.update column (map second_segment xs) (cols t)\<rparr>) \<and>
         second_segment (Null :: 'f cell) = Null \<and>
         (\<forall>s. CHR ''/'' \<notin> set s \<longrightarrow> second_segment (Text s :: 'f cell) = Null) \<and>
         (\<forall>s a b rest. str_split CHR ''/'' s = a # b # rest \<longrightarrow>
            second_segment (Text s :: 'f cell) = Text b) \<and>
         second_segment (Text ''1/5/00'' :: 'f cell) = Text ''5'' \<and>
         second_segment (Text ''3/10/05'' :: 'f cell) = Text ''10''"
proof -
  from assms(3) have "str_accessor xs = Inr xs" by (rule str_accessor_ok)
  then have "str_split_series CHR ''/'' xs = Inr (map (split_cell CHR ''/'') xs)"
    by (simp add: str_split_series_def)
  with assms(2) have "call (\<lambda>d. split_keep_middle d column) t =
           Inr (t\<lparr>cols := AList.update column (map second_segment xs) (cols t)\<rparr>)"
    by (simp add: split_keep_middle_call assign_col_def str_get_series_def segment_split o_def)
  then show ?thesis
    by (simp add: second_segment_def str_split_no_sep)
qed


theorem split_keep_middle_second_segment_witness:
  "wf_table \<lparr>index = [0, 1, 2, 3], cols = [(''number_of_open_complaints'',
       [Text ''1/5/00'', Text ''3/10/05'', Text ''7'', Null :: nat cell])]\<rparr> \<and>
   call (\<lambda>d. split_keep_middle d ''number_of_open_complaints'')
     \<lparr>index = [0, 1, 2, 3], cols = [(''number_of_open_complaints'',
       [Text ''1/5/00'', Text ''3/10/05'', Text ''7'', Null :: nat cell])]\<rparr>
   = Inr \<lparr>index = [0, 1, 2, 3], cols = [(''number_of_open_complaints'',
       [Text ''5'', Text ''10'', Null, Null])]\<rparr>"
proof -
  let ?xs = "[Text ''1/5/00'', Text ''3/10/05'', Text ''7'', Null :: nat cell]"
  let ?t = "\<lparr>index = [0, 1, 2, 3], cols = [(''number_of_open_complaints'', ?xs)]\<rparr>"
  have wf: "wf_table ?t" by (simp add: wf_table_def)
  have col: "map_of (cols ?t) ''number_of_open_complaints'' = Some ?xs" by simp
  have ok: "list_ex is_text ?xs" by simp
  from split_keep_middle_second_segment [OF wf col ok]
  have "call (\<lambda>d. split_keep_middle d ''number_of_open_complaints'') ?t =
      Inr (?t\<lparr>cols := AList.update ''number_of_open_complaints'' (map second_segment ?xs) (cols ?t)\<rparr>)"
    by (rule conjunct1)
  with wf show ?thesis by (simp add: second_segment_def)
qed

section \<open>The Mean Imputer\<close>

text \<open>
  Claim C3 as stated asks for an error when the column has no non-null cell. The code
  has no such check: the mean of no values is NaN, filling with NaN changes nothing,
  and the frame comes back with its nulls.
\<close>

theorem fill_with_mean_all_null_returns:
  "\<forall>ops :: nat float_ops.
     call (\<lambda>d. fill_with_mean ops d ''customer_lifetime_value'')
       \<lparr>index = [0, 1], cols = [(''customer_lifetime_value'', [Null, Null])]\<rparr>
     = Inr \<lparr>index = [0, 1], cols = [(''customer_lifetime_value'', [Null, Null])]\<rparr>"
  by (simp add: fill_with_mean_call assign_col_def astype_float_def float_cell_def fillna_def
      series_mean_def fill_cell_def)

lemma numbers_all_null: "list_all (\<lambda>x. x = Null) xs \<Longrightarrow> numbers xs = []"
  by (induction xs) simp_all

text \<open>
  Claim C3, amended. On every frame whose target column exists and holds only nulls,
  \<open>fill_with_mean\<close> raises nothing and returns a new frame equal to its argument:
  the column still holds its nulls.
\<close>

theorem fill_with_mean_all_null:
  assumes "wf_table t" and "map_of (cols t) column = Some xs"
    and "list_all (\<lambda>x. x = Null) xs"
  shows "call (\<lambda>d. fill_with_mean ops d column) t = Inr t"
proof -
  from assms(3) have "\<And>x. x \<in> set xs \<Longrightarrow> float_cell ops x = Inr (id x)"
    by (auto simp: list_all_iff float_cell_def)
  then have a: "astype_float ops xs = Inr xs"
    unfolding astype_float_def by (simp add: apply_each_map)
  from assms(3) have m: "series_mean ops xs = None"
    by (simp add: series_mean_def numbers_all_null)
  have f: "fillna None xs = xs"
    by (simp add: fillna_def fill_cell_def map_idI)
  from assms(2) have "AList.update column xs (cols t) = cols t"
    by (rule update_triv)
  with assms(2) a m f show ?thesis
    by (simp add: fill_with_mean_call assign_col_def)
qed

theorem fill_with_mean_all_null_witness:
  "\<forall>ops :: nat float_ops.
     wf_table \<lparr>index = [0], cols = [(''state'', [Text ''AZ'']), (''clv'', [Null :: nat cell])]\<rparr> \<and>
     call (\<lambda>d. fill_with_mean ops d ''clv'')
       \<lparr>index = [0], cols = [(''state'', [Text ''AZ'']), (''clv'', [Null])]\<rparr>
     = Inr \<lparr>index = [0], cols = [(''state'', [Text ''AZ'']), (''clv'', [Null])]\<rparr>"
proof
  fix ops :: "nat float_ops"
  let ?t = "\<lparr>index = [0], cols = [(''state'', [Text ''AZ'']), (''clv'', [Null :: nat cell])]\<rparr>"
  have wf: "wf_table ?t" by (simp add: wf_table_def)
  have col: "map_of (cols ?t) ''clv'' = Some [Null]" by simp
  have nulls: "list_all (\<lambda>x. x = Null) [Null :: nat cell]" by simp
  from wf fill_with_mean_all_null [OF wf col nulls, of ops]
  show "wf_table ?t \<and> call (\<lambda>d. fill_with_mean ops d ''clv'') ?t = Inr ?t"
    by simp
qed

text \<open>
  Where the column converts and the library's mean of its numbers is a number \<open>m\<close>,
  the frame returned has the converted column with \<open>m\<close> in place of every null.
  Which numbers the conversion and the mean give is floating-point arithmetic of the
  library, a parameter here.
\<close>

lemma fill_with_mean_fills:
  assumes "map_of (cols t) column = Some xs"
    and "astype_float ops xs = Inr ys"
    and "series_mean ops ys = Some m"
  shows "call (\<lambda>d. fill_with_mean ops d column) t =
           Inr (t\<lparr>cols := AList.update column (map (fill_cell (Some m)) ys) (cols t)\<rparr>)"
    and "Null \<notin> set (map (fill_cell (Some m)) ys)"
    and "\<forall>i<length ys. ys ! i \<noteq> Null \<longrightarrow> fill_cell (Some m) (ys ! i) = ys ! i"
    and "\<forall>i<length ys. ys ! i = Null \<longrightarrow> fill_cell (Some m) (ys ! i) = Num m"
proof -
  from assms show "call (\<lambda>d. fill_with_mean ops d column) t =
           Inr (t\<lparr>cols := AList.update column (map (fill_cell (Some m)) ys) (cols t)\<rparr>)"
    by (simp add: fill_with_mean_call assign_col_def fillna_def)
  show "Null \<notin> set (map (fill_cell (Some m)) ys)"
    by (auto simp: fill_cell_def)
  show "\<forall>i<length ys. ys ! i \<noteq> Null \<longrightarrow> fill_cell (Some m) (ys ! i) = ys ! i"
    by (simp add: fill_cell_def)
  show "\<forall>i<length ys. ys ! i = Null \<longrightarrow> fill_cell (Some m) (ys ! i) = Num m"
    by (simp add: fill_cell_def)
qed

text \<open>
  Claim C2 as stated promises a column without nulls whenever one cell is a number and
  the others are numbers or null. The texts \<open>inf\<close> and \<open>-inf\<close> are numbers to
  \<^verbatim>\<open>astype(float)\<close>; their mean is NaN, filling with NaN changes nothing, and the
  null stays.
\<close>

theorem fill_with_mean_inf_keeps_null:
  "call (\<lambda>d. fill_with_mean inf_ops d ''customer_lifetime_value'')
     \<lparr>index = [0, 1, 2],
      cols = [(''customer_lifetime_value'', [Text ''inf'', Text ''-inf'', Null])]\<rparr>
   = Inr \<lparr>index = [0, 1, 2],
      cols = [(''customer_lifetime_value'', [Num PlusInf, Num MinusInf, Null])]\<rparr>"
  by (simp add: fill_with_mean_call assign_col_def astype_float_def float_cell_def fillna_def
      series_mean_def fill_cell_def inf_ops_def)

lemma float_cell_value:
  assumes "x = Null \<or> float_value ops x \<noteq> None"
  shows "float_cell ops x = Inr (case float_value ops x of Some v \<Rightarrow> Num v | None \<Rightarrow> Null)"
  using assms
  by (cases x) (auto simp: float_cell_def float_value_def split: option.splits)

lemma numbers_converted:
  "numbers (map (\<lambda>x. case float_value ops x of Some v \<Rightarrow> Num v | None \<Rightarrow> Null) xs)
     = List.map_filter (float_value ops) xs"
  by (induction xs) (auto simp: List.map_filter_simps split: option.splits)

lemma some_value:
  assumes "list_all (\<lambda>x. x = Null \<or> float_value ops x \<noteq> None) xs"
    and "list_ex (\<lambda>x. x \<noteq> Null) xs"
  shows "List.map_filter (float_value ops) xs \<noteq> []"
  using assms
  by (induction xs) (auto simp: List.map_filter_simps split: option.splits)

text \<open>
  Claim C2, amended. On every frame whose target column holds at least one non-null
  cell, every non-null cell of it numerically parsable, and for which the library's mean
  of the numbers of the non-null cells is a number \<open>m\<close> and not NaN,
  \<open>fill_with_mean\<close> returns the frame with that column mapped cell by cell: there is
  no null in it, every cell that was not null holds its own number, as a float, and
  every cell that was null holds \<open>m\<close>.
\<close>

theorem fill_with_mean_imputes:
  assumes "wf_table t" and "map_of (cols t) column = Some xs"
    and "list_all (\<lambda>x. x = Null \<or> float_value ops x \<noteq> None) xs"
    and "list_ex (\<lambda>x. x \<noteq> Null) xs"
    and "mean_float ops (List.map_filter (float_value ops) xs) = Some m"
  shows "call (\<lambda>d. fill_with_mean ops d column) t =
           Inr (t\<lparr>cols := AList.update column (map (imputed ops m) xs) (cols t)\<rparr>) \<and>
         Null \<notin> set (map (imputed ops m) xs) \<and>
         (\<forall>i<length xs. \<forall>v. float_value ops (xs ! i) = Some v \<longrightarrow> imputed ops m (xs ! i) = Num v) \<and>
         (\<forall>i<length xs. xs ! i = Null \<longrightarrow> imputed ops m (xs ! i) = Num m)"
proof -
  let ?conv = "\<lambda>x. case float_value ops x of Some v \<Rightarrow> Num v | None \<Rightarrow> Null"
  from assms(3) have "\<And>x. x \<in> set xs \<Longrightarrow> float_cell ops x = Inr (?conv x)"
    by (intro float_cell_value) (simp add: list_all_iff)
  then have conv: "astype_float ops xs = Inr (map ?conv xs)"
    unfolding astype_float_def by (rule apply_each_map)
  from some_value [OF assms(3,4)] assms(5)
  have mean: "series_mean ops (map ?conv xs) = Some m"
    by (simp add: series_mean_def numbers_converted)
  have fill: "map (fill_cell (Some m)) (map ?conv xs) = map (imputed ops m) xs"
    by (simp add: fill_cell_def imputed_def split: option.splits)
  have "call (\<lambda>d. fill_with_mean ops d column) t =
           Inr (t\<lparr>cols := AList.update column (map (imputed ops m) xs) (cols t)\<rparr>)"
    using fill_with_mean_fills(1) [OF assms(2) conv mean] unfolding fill .
  moreover have "Null \<notin> set (map (imputed ops m) xs)"
    by (auto simp: imputed_def split: option.splits)
  moreover have "\<forall>i<length xs. \<forall>v. float_value ops (xs ! i) = Some v \<longrightarrow> imputed ops m (xs ! i) = Num v"
    by (simp add: imputed_def)
  moreover have "\<forall>i<length xs. xs ! i = Null \<longrightarrow> imputed ops m (xs ! i) = Num m"
    by (simp add: imputed_def float_value_def)
  ultimately show ?thesis by blast
qed

theorem fill_with_mean_imputes_witness:
  "wf_table \<lparr>index = [0, 1, 2],
      cols = [(''customer_lifetime_value'', [Text ''inf'', Null, Num PlusInf])]\<rparr> \<and>
   call (\<lambda>d. fill_with_mean inf_ops d ''customer_lifetime_value'')
     \<lparr>index = [0, 1, 2],
      cols = [(''customer_lifetime_value'', [Text ''inf'', Null, Num PlusInf])]\<rparr>
   = Inr \<lparr>index = [0, 1, 2],
      cols = [(''customer_lifetime_value'', [Num PlusInf, Num PlusInf, Num PlusInf])]\<rparr>"
proof -
  let ?xs = "[Text ''inf'', Null, Num PlusInf]"
  let ?t = "\<lparr>index = [0, 1, 2], cols = [(''customer_lifetime_value'', ?xs)]\<rparr>"
  have wf: "wf_table ?t" by (simp add: wf_table_def)
  have col: "map_of (cols ?t) ''customer_lifetime_value'' = Some ?xs" by simp
  have parsable: "list_all (\<lambda>x. x = Null \<or> float_value inf_ops x \<noteq> None) ?xs"
    by (simp add: float_value_def inf_ops_def)
  have some: "list_ex (\<lambda>x. x \<noteq> Null) ?xs" by simp
  have mean: "mean_float inf_ops (List.map_filter (float_value inf_ops) ?xs) = Some PlusInf"
    by (simp add: float_value_def inf_ops_def)
  from fill_with_mean_imputes [OF wf col parsable some mean]
  have "call (\<lambda>d. fill_with_mean inf_ops d ''customer_lifetime_value'') ?t =
      Inr (?t\<lparr>cols := AList.update ''customer_lifetime_value''
                          (map (imputed inf_ops PlusInf) ?xs) (cols ?t)\<rparr>)"
    by (rule conjunct1)
  with wf show ?thesis by (simp add: imputed_def float_value_def inf_ops_def)
qed

section \<open>Purity and frame\<close>

lemma assign_col_frame:
  assumes "assign_col F c t = Inr t'"
  shows "index t' = index t \<and> map fst (cols t') = map fst (cols t) \<and>
         (\<forall>c'. c' \<noteq> c \<longrightarrow> map_of (cols t') c' = map_of (cols t) c')"
proof -
  from assms obtain s s' where s: "map_of (cols t) c = Some s"
    and t': "t' = t\<lparr>cols := AList.update c s' (cols t)\<rparr>"
    by (auto simp: assign_col_def split: option.splits sum.splits)
  from s have "c \<in> set (map fst (cols t))"
    by (auto dest: map_of_SomeD intro: rev_image_eqI)
  with t' show ?thesis
    by (simp add: update_keys update_conv')
qed

lemma keeps_of_assign:
  assumes "\<And>t. call f t = assign_col F c t"
  shows "keeps_other_columns f c"
  unfolding keeps_other_columns_def assms
  by (intro allI impI) (rule assign_col_frame)

text \<open>
  Claim C9. Every step (the ten functions and the runner) is pure: run on any store, it
  leaves every frame that existed before the call unchanged, the caller's argument
  among them, and the frame it returns is a new object. Every per-column cleaner
  returns a frame with the row labels and column labels of its argument, in order, and
  with the same cells in every column but the target.
\<close>

theorem steps_pure:
  "pure_step (clean_col_name :: nat \<Rightarrow> ('f, nat) prog) \<and>
   pure_step (\<lambda>d. clean_gender d column :: ('f, nat) prog) \<and>
   pure_step (\<lambda>d. clean_state d column :: ('f, nat) prog) \<and>
   pure_step (\<lambda>d. clean_education d column :: ('f, nat) prog) \<and>
   pure_step (\<lambda>d. clean_clv d column :: ('f, nat) prog) \<and>
   pure_step (\<lambda>d. clean_car_class d column :: ('f, nat) prog) \<and>
   pure_step (\<lambda>d. split_keep_middle d column :: ('f, nat) prog) \<and>
   pure_step (drop_null_rows :: nat \<Rightarrow> ('f, nat) prog) \<and>
   pure_step (\<lambda>d. fill_with_mean ops d column) \<and>
   pure_step (num_to_int ops) \<and>
   pure_step (\<lambda>d. clean_dataframe ops d arg) \<and>
   keeps_other_columns (\<lambda>d. clean_gender d column :: ('f, nat) prog) column \<and>
   keeps_other_columns (\<lambda>d. clean_state d column :: ('f, nat) prog) column \<and>
   keeps_other_columns (\<lambda>d. clean_education d column :: ('f, nat) prog) column \<and>
   keeps_other_columns (\<lambda>d. clean_clv d column :: ('f, nat) prog) column \<and>
   keeps_other_columns (\<lambda>d. clean_car_class d column :: ('f, nat) prog) column \<and>
   keeps_other_columns (\<lambda>d. split_keep_middle d column :: ('f, nat) prog) column \<and>
   keeps_other_columns (\<lambda>d. fill_with_mean ops d column) column"
  by (intro conjI clean_col_name_pure clean_gender_pure clean_state_pure clean_education_pure
      clean_clv_pure clean_car_class_pure split_keep_middle_pure drop_null_rows_pure
      fill_with_mean_pure num_to_int_pure clean_dataframe_pure
      keeps_of_assign [OF clean_gender_call] keeps_of_assign [OF clean_state_call]
      keeps_of_assign [OF clean_education_call] keeps_of_assign [OF clean_clv_call]
      keeps_of_assign [OF clean_car_class_call] keeps_of_assign [OF split_keep_middle_call]
      keeps_of_assign [OF fill_with_mean_call])

theorem steps_pure_witness:
  "clean_education 1 ''education''
     [\<lparr>index = [0], cols = [(''state'', [Text ''AZ'' :: nat cell])]\<rparr>,
      \<lparr>index = [0], cols = [(''education'', [Text ''Bachelors'']), (''state'', [Text ''WA''])]\<rparr>]
   = (Inr 2,
     [\<lparr>index = [0], cols = [(''state'', [Text ''AZ''])]\<rparr>,
      \<lparr>index = [0], cols = [(''education'', [Text ''Bachelors'']), (''state'', [Text ''WA''])]\<rparr>,
      \<lparr>index = [0], cols = [(''education'', [Text ''Bachelor'']), (''state'', [Text ''WA''])]\<rparr>]) \<and>
   prefix
     [\<lparr>index = [0], cols = [(''state'', [Text ''AZ'' :: nat cell])]\<rparr>,
      \<lparr>index = [0], cols = [(''education'', [Text ''Bachelors'']), (''state'', [Text ''WA''])]\<rparr>]
     (snd (clean_education 1 ''education''
       [\<lparr>index = [0], cols = [(''state'', [Text ''AZ'' :: nat cell])]\<rparr>,
        \<lparr>index = [0], cols = [(''education'', [Text ''Bachelors'']), (''state'', [Text ''WA''])]\<rparr>])) \<and>
   call (\<lambda>d. clean_education d ''education'')
      \<lparr>index = [0], cols = [(''education'', [Text ''Bachelors'']), (''state'', [Text ''WA'' :: nat cell])]\<rparr>
   = Inr \<lparr>index = [0], cols = [(''education'', [Text ''Bachelor'']), (''state'', [Text ''WA''])]\<rparr>"
proof -
  let ?t0 = "\<lparr>index = [0], cols = [(''state'', [Text ''AZ'' :: nat cell])]\<rparr>"
  let ?t1 = "\<lparr>index = [0], cols = [(''education'', [Text ''Bachelors'']), (''state'', [Text ''WA'' :: nat cell])]\<rparr>"
  let ?t2 = "\<lparr>index = [0], cols = [(''education'', [Text ''Bachelor'']), (''state'', [Text ''WA'' :: nat cell])]\<rparr>"
  have run: "clean_education 1 ''education'' [?t0, ?t1] = (Inr 2, [?t0, ?t1, ?t2])"
    by (simp add: clean_education_def prog_defs series_replace_def replace_cell_def)
  have pure: "pure_step (\<lambda>d. clean_education d ''education'' :: (nat, nat) prog)"
    by (rule steps_pure [THEN conjunct2, THEN conjunct2, THEN conjunct2, THEN conjunct1])
  have valid: "1 < length [?t0, ?t1]" by simp
  note after = pure_stepD [OF pure valid run]
  from after(1) have kept: "prefix [?t0, ?t1] [?t0, ?t1, ?t2]" .
  from after(3) [OF refl] have "call (\<lambda>d. clean_education d ''education'') ?t1 = Inr ?t2"
    by simp
  with run kept show ?thesis by simp
qed

end
